theory Spec2Isabelle
  imports Main "HOL-Library.Sublist"
begin

section \<open>Data model (main.py, Models)\<close>

text \<open>
  Python strings are modelled as \<open>string\<close>: a character stands for the code point of
  its number, so the texts covered are those of code points below 256.
  \<open>Optional[Any]\<close> payloads are JSON values, \<open>JNull\<close> standing for
  \<open>None\<close> (floating point numbers are left out: nothing below computes with them).
\<close>

datatype json =
    JNull
  | JBool bool
  | JInt int
  | JStr string
  | JList "json list"
  | JObj "(string \<times> json) list"

datatype intent_type = open_app | toggle_setting | adjust_setting | unknown

text \<open>
  class Intent. The fields \<open>type, target, action, value\<close> carry the prefix \<open>i\<close>,
  since DeviceAction has fields of the same names.
\<close>

record Intent =
  itype :: intent_type
  itarget :: "string option"
  iaction :: "string option"
  ivalue :: json
  raw_text :: "string option"

datatype py_error = IndexError | ValueError

section \<open>Alias tables\<close>

text \<open>Python dictionaries iterate in insertion order: association lists.\<close>

definition COMMON_APPS :: "(string \<times> string list) list" where
  "COMMON_APPS =
    [(''whatsapp'', [''whatsapp'', ''whats app'']),
     (''instagram'', [''instagram'', ''insta'']),
     (''youtube'', [''youtube'', ''yt'']),
     (''twitter'', [''twitter'', ''x'']),
     (''facebook'', [''facebook'', ''fb'']),
     (''camera'', [''camera'']),
     (''settings'', [''settings'']),
     (''chrome'', [''chrome'', ''browser'']),
     (''gmail'', [''gmail'', ''mail''])]"

definition SETTINGS :: "(string \<times> string list) list" where
  "SETTINGS =
    [(''wifi'', [''wi-fi'', ''wifi'']),
     (''bluetooth'', [''bluetooth'']),
     (''data'', [''mobile data'', ''data'', ''cellular'']),
     (''flashlight'', [''flashlight'', ''torch'']),
     (''airplane'', [''airplane'', ''flight mode'']),
     (''dnd'', [''do not disturb'', ''dnd'']),
     (''location'', [''location'', ''gps'']),
     (''hotspot'', [''hotspot'', ''tethering''])]"

definition ADJUSTABLES :: "(string \<times> string list) list" where
  "ADJUSTABLES =
    [(''volume'', [''volume'', ''sound'']),
     (''brightness'', [''brightness'', ''display''])]"

section \<open>normalize\<close>

text \<open>
  \<open>str.lower\<close>, character by character: below 256 the capitals are A to Z and the
  code points 0xC0 to 0xDE without the multiplication sign 0xD7, and the small letter
  of each lies 0x20 above it.
\<close>

definition lower_char :: "char \<Rightarrow> char" where
  "lower_char c =
     (let n = (of_char c :: nat)
      in if (0x41 \<le> n \<and> n \<le> 0x5A) \<or> (0xC0 \<le> n \<and> n \<le> 0xDE \<and> n \<noteq> 0xD7)
         then char_of (n + 0x20) else c)"

definition lower :: "string \<Rightarrow> string" where
  "lower s = map lower_char s"

text \<open>The characters below 256 for which \<open>str.isspace\<close> holds.\<close>

definition isspace :: "char \<Rightarrow> bool" where
  "isspace c =
     (c \<in> set [CHR 0x09, CHR 0x0A, CHR 0x0B, CHR 0x0C, CHR 0x0D,
                CHR 0x1C, CHR 0x1D, CHR 0x1E, CHR 0x1F, CHR '' '', CHR 0x85, CHR 0xA0])"

definition strip :: "string \<Rightarrow> string" where
  "strip s = rev (dropWhile isspace (rev (dropWhile isspace s)))"

text \<open>
  \<open>str.split()\<close> without arguments: the maximal runs of non-whitespace characters.
  The first argument is the word read so far.
\<close>

fun split_ws :: "string \<Rightarrow> string \<Rightarrow> string list" where
  "split_ws w [] = (if w = [] then [] else [w])"
| "split_ws w (c # cs) =
     (if isspace c then (if w = [] then split_ws [] cs else w # split_ws [] cs)
      else split_ws (w @ [c]) cs)"

fun join :: "string \<Rightarrow> string list \<Rightarrow> string" where
  "join sep [] = []"
| "join sep [w] = w"
| "join sep (w # v # ws) = w @ sep @ join sep (v # ws)"

definition normalize_text :: "string \<Rightarrow> string" where
  "normalize_text text = join '' '' (split_ws [] (strip (lower text)))"

section \<open>parse_intent\<close>

text \<open>\<open>any(w in t for w in ws)\<close>: some member of \<open>ws\<close> is a substring of \<open>t\<close>.\<close>

definition any_in :: "string list \<Rightarrow> string \<Rightarrow> bool" where
  "any_in ws t = list_ex (\<lambda>w. sublist w t) ws"

text \<open>\<open>t.split(" ", 1)[1]\<close>: what follows the first space; IndexError without one.\<close>

definition split1_second :: "string \<Rightarrow> py_error + string" where
  "split1_second t =
     (if CHR '' '' \<in> set t then Inr (tl (dropWhile (\<lambda>c. c \<noteq> CHR '' '') t))
      else Inl IndexError)"

text \<open>
  The loops \<open>for key, aliases in TABLE.items(): if any(a in t for a in aliases)\<close>:
  the key of the first entry with an alias inside \<open>t\<close>.
\<close>

definition scan_aliases :: "(string \<times> string list) list \<Rightarrow> string \<Rightarrow> string option" where
  "scan_aliases table t = map_option fst (find (\<lambda>(key, aliases). any_in aliases t) table)"

definition isdigit :: "char \<Rightarrow> bool" where
  "isdigit c = (c \<in> set ''0123456789'')"

definition digit_val :: "char \<Rightarrow> int" where
  "digit_val c =
     (case map_of (zip ''0123456789'' [0, 1, 2, 3, 4, 5, 6, 7, 8, 9]) c of
        Some d \<Rightarrow> d
      | None \<Rightarrow> 0)"

text \<open>The number that a string of decimal digits denotes.\<close>

definition int_of_digits :: "string \<Rightarrow> int" where
  "int_of_digits ds = foldl (\<lambda>n c. 10 * n + digit_val c) 0 ds"

text \<open>
  \<open>int(ds)\<close> on a string of decimal digits: the interpreter refuses a string of more
  digits than its limit, 4300 unless configured otherwise, with a ValueError; leading
  zeros count.
\<close>

definition int_max_str_digits :: nat where
  "int_max_str_digits = 4300"

definition py_int :: "string \<Rightarrow> py_error + int" where
  "py_int ds = (if length ds > int_max_str_digits then Inl ValueError else Inr (int_of_digits ds))"

text \<open>
  \<open>re.search(r"(\d+)%", t)\<close>, giving \<open>m.group(1)\<close>: the digits at the leftmost
  position where a run of digits is followed at once by a percent sign. A greedy
  \<open>\d+\<close> that backtracks can only meet the percent sign after the whole run, so the
  run is taken whole at each start position.
\<close>

fun re_search_pct :: "string \<Rightarrow> string option" where
  "re_search_pct [] = None"
| "re_search_pct (c # cs) =
     (let ds = takeWhile isdigit (c # cs); rest = dropWhile isdigit (c # cs)
      in if ds \<noteq> [] \<and> prefix ''%'' rest then Some ds
         else re_search_pct cs)"

text \<open>
  The tiers of parse_intent, in the order of the source. Each gives the intent it
  returns, or None when control goes on to the next statement.
\<close>

definition open_tier :: "string \<Rightarrow> Intent \<Rightarrow> (py_error + Intent) option" where
  "open_tier t intent =
     (if prefix ''open '' t \<or> prefix ''launch '' t then
        Some (case split1_second t of
            Inl e \<Rightarrow> Inl e
          | Inr app_name \<Rightarrow>
              (case find (\<lambda>(key, aliases). app_name \<in> set aliases \<or> sublist key app_name)
                      COMMON_APPS of
                 Some (key, aliases) \<Rightarrow>
                   Inr (intent\<lparr>itype := open_app, itarget := Some key, iaction := Some ''open''\<rparr>)
               | None \<Rightarrow>
                   Inr (intent\<lparr>itype := open_app, itarget := Some app_name,
                          iaction := Some ''open''\<rparr>)))
      else None)"

definition toggle_tier :: "string list \<Rightarrow> string \<Rightarrow> string \<Rightarrow> Intent \<Rightarrow> Intent option" where
  "toggle_tier triggers act t intent =
     (if any_in triggers t then
        (case scan_aliases SETTINGS t of
           Some key \<Rightarrow>
             Some (intent\<lparr>itype := toggle_setting, itarget := Some key, iaction := Some act\<rparr>)
         | None \<Rightarrow> None)
      else None)"

definition adjust_tier :: "string \<Rightarrow> Intent \<Rightarrow> (py_error + Intent) option" where
  "adjust_tier t intent =
     (if any_in [''increase'', ''turn up'', ''raise'', ''decrease'', ''turn down'', ''lower'',
                 ''set ''] t then
        (let action =
           (if any_in [''increase'', ''turn up'', ''raise''] t then Some ''increase''
            else if any_in [''decrease'', ''turn down'', ''lower''] t then Some ''decrease''
            else if prefix ''set '' t then Some ''set''
            else None)
         in case scan_aliases ADJUSTABLES t of
              Some key \<Rightarrow>
                Some (case (case re_search_pct t of
                              None \<Rightarrow> Inr JNull
                            | Some ds \<Rightarrow>
                                (case py_int ds of Inl e \<Rightarrow> Inl e | Inr n \<Rightarrow> Inr (JInt n))) of
                        Inl e \<Rightarrow> Inl e
                      | Inr v \<Rightarrow>
                          Inr (intent\<lparr>itype := adjust_setting, itarget := Some key,
                                 iaction := action, ivalue := v\<rparr>))
            | None \<Rightarrow> None)
      else None)"

definition parse_intent :: "string \<Rightarrow> py_error + Intent" where
  "parse_intent text =
     (let t = normalize_text text;
          intent = \<lparr>itype = unknown, itarget = None, iaction = None, ivalue = JNull,
                    raw_text = Some text\<rparr>
      in case open_tier t intent of
           Some r \<Rightarrow> r
         | None \<Rightarrow>
        (case toggle_tier [''turn on'', ''enable'', ''switch on''] ''on'' t intent of
           Some i \<Rightarrow> Inr i
         | None \<Rightarrow>
        (case toggle_tier [''turn off'', ''disable'', ''switch off''] ''off'' t intent of
           Some i \<Rightarrow> Inr i
         | None \<Rightarrow>
        (case adjust_tier t intent of
           Some r \<Rightarrow> r
         | None \<Rightarrow> Inr intent))))"

section \<open>The store\<close>

datatype kind = kind_open_app | kind_toggle | kind_adjust

datatype status = pending | reserved | completed | failed

datatype role = user | assistant

text \<open>class Interaction; the field \<open>text\<close> is \<open>itext\<close> here.\<close>

record Interaction =
  role :: role
  itext :: string
  intent :: "Intent option"

text \<open>class DeviceAction; the fields \<open>id\<close> and \<open>value\<close> are \<open>da_id\<close> and \<open>da_value\<close>.\<close>

record DeviceAction =
  da_id :: string
  kind :: kind
  target :: string
  action :: "string option"
  da_value :: json
  status :: status
  device_id :: "string option"
  result :: "(string \<times> json) list option"

type_synonym timestamp = nat

text \<open>
  A stored device action: the dumped model, and the key \<open>updated_at\<close> that the
  queue operations set. A collection lists its documents in insertion order, each
  under its \<open>_id\<close> (a number here).
\<close>

record stored = DeviceAction +
  updated_at :: "timestamp option"

type_synonym 'a collection = "(nat \<times> 'a) list"

record database =
  interaction :: "Interaction collection"
  deviceaction :: "stored collection"

datatype http_error = HTTPException nat string | StorageUnavailable

text \<open>\<open>str(_id)\<close>: the decimal digits of the number.\<close>

fun oid_str :: "nat \<Rightarrow> string" where
  "oid_str n =
     (if n < 10 then [''0123456789'' ! n]
      else oid_str (n div 10) @ [''0123456789'' ! (n mod 10)])"

declare oid_str.simps [simp del]

text \<open>
  \<open>find_one(filter)\<close>, called without a sort: the first document, in the order of the
  collection, that the filter accepts. \<open>update_one(filter, {"$set": ...})\<close>: that
  document is updated; the second component is \<open>matched_count\<close>.
\<close>

definition find_one :: "(nat \<times> 'a \<Rightarrow> bool) \<Rightarrow> 'a collection \<Rightarrow> (nat \<times> 'a) option" where
  "find_one P c = find P c"

fun update_one :: "(nat \<times> 'a \<Rightarrow> bool) \<Rightarrow> ('a \<Rightarrow> 'a) \<Rightarrow> 'a collection \<Rightarrow> 'a collection \<times> nat" where
  "update_one P f [] = ([], 0)"
| "update_one P f ((i, d) # c) =
     (if P (i, d) then ((i, f d) # c, 1)
      else (case update_one P f c of (c', n) \<Rightarrow> ((i, d) # c', n)))"

text \<open>An \<open>_id\<close> that no document of the collection has.\<close>

definition fresh_oid :: "'a collection \<Rightarrow> nat" where
  "fresh_oid c = Suc (fold max (map fst c) 0)"

text \<open>
  Modelled from the spec: create_document of the module database, which is not among
  the sources. The spec's enqueue "inserts a new record" and "never fails except on
  storage unavailability"; the call returns the new document's \<open>_id\<close> as a string.
  The record is placed after those already stored, so that the order of the collection,
  in which find_one looks for its first match, is the spec's "creation order".
\<close>

definition create_document_interaction ::
    "database option \<Rightarrow> Interaction \<Rightarrow> http_error + string \<times> database" where
  "create_document_interaction db doc =
     (case db of
        None \<Rightarrow> Inl StorageUnavailable
      | Some d \<Rightarrow>
          (let i = fresh_oid (interaction d)
           in Inr (oid_str i, d\<lparr>interaction := interaction d @ [(i, doc)]\<rparr>)))"

text \<open>
  Modelled from the spec: create_document of the module database, on the collection
  deviceaction; as above, the new record comes last.
\<close>

definition create_document_deviceaction ::
    "database option \<Rightarrow> stored \<Rightarrow> http_error + string \<times> database" where
  "create_document_deviceaction db doc =
     (case db of
        None \<Rightarrow> Inl StorageUnavailable
      | Some d \<Rightarrow>
          (let i = fresh_oid (deviceaction d)
           in Inr (oid_str i, d\<lparr>deviceaction := deviceaction d @ [(i, doc)]\<rparr>)))"

section \<open>create_interaction\<close>

text \<open>
  The constructor of DeviceAction with its defaults; \<open>uuid\<close> is the string that
  \<open>str(uuid4())\<close> yields for this object.
\<close>

definition DeviceAction_init ::
    "string \<Rightarrow> kind \<Rightarrow> string \<Rightarrow> string option \<Rightarrow> json \<Rightarrow> DeviceAction" where
  "DeviceAction_init uuid k tgt act v =
     \<lparr>da_id = uuid, kind = k, target = tgt, action = act, da_value = v,
      status = pending, device_id = None, result = None\<rparr>"

definition model_dump :: "DeviceAction \<Rightarrow> stored" where
  "model_dump a =
     \<lparr>da_id = da_id a, kind = kind a, target = target a, action = action a,
      da_value = da_value a, status = status a, device_id = device_id a,
      result = result a, updated_at = None\<rparr>"

text \<open>\<open>x or ""\<close> on an optional string.\<close>

definition or_empty :: "string option \<Rightarrow> string" where
  "or_empty x = (case x of None \<Rightarrow> '''' | Some s \<Rightarrow> if s = '''' then '''' else s)"

definition create_interaction ::
    "database option \<Rightarrow> Interaction \<Rightarrow> string \<Rightarrow> http_error + string \<times> database" where
  "create_interaction db item uuid =
     (case create_document_interaction db item of
        Inl e \<Rightarrow> Inl e
      | Inr (oid, db1) \<Rightarrow>
          (case intent item of
             None \<Rightarrow> Inr (oid, db1)
           | Some i \<Rightarrow>
               if itype i \<in> {open_app, toggle_setting, adjust_setting} then
                 (let action =
                    (if itype i = open_app then
                       DeviceAction_init uuid kind_open_app (or_empty (itarget i)) (Some ''open'')
                         JNull
                     else if itype i = toggle_setting then
                       DeviceAction_init uuid kind_toggle (or_empty (itarget i)) (iaction i) JNull
                     else
                       DeviceAction_init uuid kind_adjust (or_empty (itarget i)) (iaction i)
                         (ivalue i))
                  in case create_document_deviceaction (Some db1) (model_dump action) of
                       Inl e \<Rightarrow> Inl e
                     | Inr (oid', db2) \<Rightarrow> Inr (oid, db2))
               else Inr (oid, db1)))"

section \<open>get_next_action\<close>

text \<open>
  The two calls to the store, and the response built from the document read.
  \<open>if db\<close> is read as: a database is configured.
\<close>

definition claim_find :: "database option \<Rightarrow> (nat \<times> stored) option" where
  "claim_find db =
     (case db of
        Some d \<Rightarrow> find_one (\<lambda>(i, x). status x = pending) (deviceaction d)
      | None \<Rightarrow> None)"

definition claim_update ::
    "nat \<times> stored \<Rightarrow> string option \<Rightarrow> timestamp \<Rightarrow> database option \<Rightarrow> database option" where
  "claim_update p dev now db =
     map_option (\<lambda>d. d\<lparr>deviceaction :=
        fst (update_one (\<lambda>(i, x). i = fst p)
               (\<lambda>x. x\<lparr>status := reserved, device_id := dev, updated_at := Some now\<rparr>)
               (deviceaction d))\<rparr>) db"

definition claim_response :: "nat \<times> stored \<Rightarrow> string option \<Rightarrow> DeviceAction" where
  "claim_response p dev =
     \<lparr>da_id = (if da_id (snd p) \<noteq> '''' then da_id (snd p) else oid_str (fst p)),
      kind = kind (snd p), target = target (snd p), action = action (snd p),
      da_value = da_value (snd p), status = reserved, device_id = dev, result = None\<rparr>"

definition get_next_action ::
    "database option \<Rightarrow> string option \<Rightarrow> timestamp \<Rightarrow> DeviceAction option \<times> database option" where
  "get_next_action db dev now =
     (case claim_find db of
        None \<Rightarrow> (None, db)
      | Some p \<Rightarrow> (Some (claim_response p dev), claim_update p dev now db))"


subsection \<open>Overlapping calls\<close>

text \<open>
  A call in progress: not started, between its find_one and its update_one (holding
  the document it read), or returned. The server runs each call of the store as one
  step; \<open>step\<close> lets one caller take its next step.
\<close>

datatype caller =
    Idle "string option"
  | Found "string option" "nat \<times> stored"
  | Returned "DeviceAction option"

fun step ::
    "caller list \<times> database option \<Rightarrow> nat \<times> timestamp \<Rightarrow> caller list \<times> database option" where
  "step (cs, db) (k, now) =
     (if k < length cs then
        (case cs ! k of
           Idle dev \<Rightarrow>
             (case claim_find db of
                None \<Rightarrow> (cs[k := Returned None], db)
              | Some p \<Rightarrow> (cs[k := Found dev p], db))
         | Found dev p \<Rightarrow>
             (cs[k := Returned (Some (claim_response p dev))], claim_update p dev now db)
         | Returned r \<Rightarrow> (cs, db))
      else (cs, db))"

definition run ::
    "(nat \<times> timestamp) list \<Rightarrow> caller list \<times> database option \<Rightarrow>
       caller list \<times> database option" where
  "run schedule cfg = foldl step cfg schedule"

section \<open>complete_action\<close>

text \<open>class CompleteActionRequest; its status is one of the two terminal ones.\<close>

datatype terminal = req_completed | req_failed

fun status_of :: "terminal \<Rightarrow> status" where
  "status_of req_completed = completed"
| "status_of req_failed = failed"

record CompleteActionRequest =
  req_result :: "(string \<times> json) list option"
  req_status :: terminal

text \<open>
  Inr is the response \<open>{"ok": True}\<close> with the store after the call. Both exceptions
  are raised with the store as it was: before the write, or after a write that matched
  no document.
\<close>

definition complete_action ::
    "database option \<Rightarrow> string \<Rightarrow> CompleteActionRequest \<Rightarrow> timestamp \<Rightarrow> http_error + database" where
  "complete_action db action_id payload now =
     (case db of
        None \<Rightarrow> Inl (HTTPException 500 ''Database not configured'')
      | Some d \<Rightarrow>
          (case update_one (\<lambda>(i, x). da_id x = action_id)
                  (\<lambda>x. x\<lparr>status := status_of (req_status payload),
                         result := req_result payload, updated_at := Some now\<rparr>)
                  (deviceaction d) of
             (c', matched_count) \<Rightarrow>
               if matched_count = 0 then Inl (HTTPException 404 ''Action not found'')
               else Inr (d\<lparr>deviceaction := c'\<rparr>)))"

section \<open>Runs of the service\<close>

text \<open>
  The requests that touch the store of device actions, each with what the call draws
  from outside: the identifier that uuid4 yields for a new DeviceAction, and the clock.
  A request that ends in an exception leaves the store as it was.
\<close>

datatype request =
    PostInteraction Interaction string
  | GetNextAction "string option" timestamp
  | CompleteAction string CompleteActionRequest timestamp

fun apply_request :: "database \<Rightarrow> request \<Rightarrow> database" where
  "apply_request d (PostInteraction item uuid) =
     (case create_interaction (Some d) item uuid of Inl e \<Rightarrow> d | Inr (r, d') \<Rightarrow> d')"
| "apply_request d (GetNextAction dev now) =
     (case snd (get_next_action (Some d) dev now) of None \<Rightarrow> d | Some d' \<Rightarrow> d')"
| "apply_request d (CompleteAction action_id payload now) =
     (case complete_action (Some d) action_id payload now of Inl e \<Rightarrow> d | Inr d' \<Rightarrow> d')"

text \<open>The store after the requests of a run, served one after the other from an empty store.\<close>

definition history :: "request list \<Rightarrow> database" where
  "history reqs = foldl apply_request \<lparr>interaction = [], deviceaction = []\<rparr> reqs"

text \<open>
  The test of create_interaction for enqueuing: an intent is given and its type is one
  of the three actionable ones.
\<close>

definition actionable :: "Interaction \<Rightarrow> bool" where
  "actionable item =
     (case intent item of
        None \<Rightarrow> False
      | Some i \<Rightarrow> itype i \<in> {open_app, toggle_setting, adjust_setting})"

text \<open>
  The identifiers minted in a run, in the order of the requests that created a device
  action with them.
\<close>

fun created :: "request list \<Rightarrow> string list" where
  "created [] = []"
| "created (PostInteraction item uuid # reqs) =
     (if actionable item then uuid # created reqs else created reqs)"
| "created (GetNextAction dev now # reqs) = created reqs"
| "created (CompleteAction action_id payload now # reqs) = created reqs"

section \<open>Properties of the classifier\<close>

lemma split1_second_prefix:
  "\<forall>c \<in> set p. c \<noteq> CHR '' '' \<Longrightarrow> split1_second (p @ CHR '' '' # rest) = Inr rest"
  by (simp add: split1_second_def dropWhile_append3)

lemma split1_second_open: "split1_second (''open '' @ rest) = Inr rest"
  using split1_second_prefix [of "''open''" rest] by simp

lemma split1_second_launch: "split1_second (''launch '' @ rest) = Inr rest"
  using split1_second_prefix [of "''launch''" rest] by simp

lemma open_tier_some:
  assumes "t = p @ rest" and "p = ''open '' \<or> p = ''launch ''"
  shows "open_tier t i0 =
     Some (Inr (i0\<lparr>itype := open_app,
        itarget := Some (case find (\<lambda>(key, aliases). rest \<in> set aliases \<or> sublist key rest)
                               COMMON_APPS of
                     Some (key, aliases) \<Rightarrow> key | None \<Rightarrow> rest),
        iaction := Some ''open''\<rparr>))"
proof -
  from assms have pre: "prefix ''open '' t \<or> prefix ''launch '' t"
    by auto
  from assms have sp: "split1_second t = Inr rest"
    using split1_second_open split1_second_launch by auto
  show ?thesis
    unfolding open_tier_def using pre sp
    by (simp split: option.split prod.split)
qed

lemma scan_aliases_none:
  assumes "\<forall>(key, aliases) \<in> set table. \<forall>a \<in> set aliases. \<not> sublist a t"
  shows "scan_aliases table t = None"
  using assms by (auto simp: scan_aliases_def find_None_iff any_in_def list_ex_iff)

text \<open>
  What does hold of every input. The only exception parse_intent can raise is the
  ValueError of \<open>int\<close>, and only when the percentage found has more digits than the
  interpreter's limit (the subscript after \<open>split\<close> is guarded by the prefix test).
  When it returns, the raw text is kept, an intent that is not unknown has a target,
  and an unknown one has neither target, action nor value.
\<close>

lemma parse_intent_results:
  "(case parse_intent text of
      Inl e \<Rightarrow>
        e = ValueError \<and>
        (\<exists>ds. re_search_pct (normalize_text text) = Some ds \<and> int_max_str_digits < length ds)
    | Inr i \<Rightarrow>
        raw_text i = Some text \<and>
        (itype i \<noteq> unknown \<longrightarrow> itarget i \<noteq> None) \<and>
        (itype i = unknown \<longrightarrow> itarget i = None \<and> iaction i = None \<and> ivalue i = JNull))"
proof (cases "prefix ''open '' (normalize_text text) \<or> prefix ''launch '' (normalize_text text)")
  case True
  then obtain p rest where t: "normalize_text text = p @ rest"
      and p: "p = ''open '' \<or> p = ''launch ''"
    unfolding prefix_def by blast
  show ?thesis
    unfolding parse_intent_def Let_def open_tier_some [OF t p] by simp
next
  case False
  then have o: "\<And>i0. open_tier (normalize_text text) i0 = None"
    by (simp add: open_tier_def)
  show ?thesis
    unfolding parse_intent_def Let_def o toggle_tier_def adjust_tier_def py_int_def
    by (simp split: option.split sum.split)
qed

text \<open>
  C2, at the input \<open>please set volume\<close>. The adjust tier is entered because the text
  contains \<open>"set "\<close>; the action is chosen by a chain whose last arm asks for the text to
  start with \<open>"set "\<close>, so no arm fires and the intent returned has the type
  adjust_setting and no action.
\<close>

theorem parse_intent_set_action_null:
  "parse_intent ''please set volume'' =
     Inr \<lparr>itype = adjust_setting, itarget = Some ''volume'', iaction = None, ivalue = JNull,
          raw_text = Some ''please set volume''\<rparr>"
  by code_simp

text \<open>
  C4, amended: whenever the normalized text starts with \<open>"open "\<close> or \<open>"launch "\<close>,
  parse_intent returns an intent of type open_app with action \<open>open\<close> and a target: the
  key of the first known app that the remainder names (as an alias, or by containing
  the key), and the remainder itself when there is none. No later tier is consulted.
\<close>

theorem parse_intent_open_tier:
  assumes "normalize_text text = p @ rest" and "p = ''open '' \<or> p = ''launch ''"
  shows "parse_intent text =
     Inr \<lparr>itype = open_app,
          itarget = Some (case find (\<lambda>(key, aliases). rest \<in> set aliases \<or> sublist key rest)
                               COMMON_APPS of
                     Some (key, aliases) \<Rightarrow> key | None \<Rightarrow> rest),
          iaction = Some ''open'', ivalue = JNull, raw_text = Some text\<rparr>"
  unfolding parse_intent_def Let_def open_tier_some [OF assms] by simp

theorem parse_intent_open_tier_witness:
  "normalize_text ''Launch  FooBar'' = ''launch '' @ ''foobar'' \<and>
   parse_intent ''Launch  FooBar'' =
     Inr \<lparr>itype = open_app, itarget = Some ''foobar'', iaction = Some ''open'',
          ivalue = JNull, raw_text = Some ''Launch  FooBar''\<rparr>"
proof -
  have n: "normalize_text ''Launch  FooBar'' = ''launch '' @ ''foobar''"
    by code_simp
  have f: "find (\<lambda>(key, aliases). ''foobar'' \<in> set aliases \<or> sublist key ''foobar'') COMMON_APPS
             = None"
    by code_simp
  have "parse_intent ''Launch  FooBar'' =
     Inr \<lparr>itype = open_app,
          itarget = Some (case find (\<lambda>(key, aliases). ''foobar'' \<in> set aliases \<or> sublist key ''foobar'')
                               COMMON_APPS of
                     Some (key, aliases) \<Rightarrow> key | None \<Rightarrow> ''foobar''),
          iaction = Some ''open'', ivalue = JNull, raw_text = Some ''Launch  FooBar''\<rparr>"
    by (rule parse_intent_open_tier [OF n]) simp
  with n f show ?thesis by simp
qed

text \<open>
  C4 as stated fails: the input \<open>"open "\<close> starts with \<open>"open "\<close>, its normalized text is
  \<open>"open"\<close>, and the result is unknown.
\<close>

theorem parse_intent_open_blank_counterexample:
  "prefix ''open '' ''open '' \<and>
   parse_intent ''open '' =
     Inr \<lparr>itype = unknown, itarget = None, iaction = None, ivalue = JNull,
          raw_text = Some ''open ''\<rparr>"
  by code_simp

text \<open>
  C9: when the normalized text contains a trigger phrase of the toggle-on or the
  toggle-off tier and no alias of any setting, the two toggle tiers return nothing:
  the result is that of the open tier when it applies, and otherwise that of the
  adjust tier, unknown only when the adjust tier does not match either.
\<close>

theorem parse_intent_toggle_fallthrough:
  assumes "any_in [''turn on'', ''enable'', ''switch on''] (normalize_text text) \<or>
           any_in [''turn off'', ''disable'', ''switch off''] (normalize_text text)"
    and "\<forall>(key, aliases) \<in> set SETTINGS. \<forall>a \<in> set aliases. \<not> sublist a (normalize_text text)"
  shows "parse_intent text =
     (let i0 = \<lparr>itype = unknown, itarget = None, iaction = None, ivalue = JNull,
                    raw_text = Some text\<rparr>
      in case open_tier (normalize_text text) i0 of
           Some r \<Rightarrow> r
         | None \<Rightarrow>
             (case adjust_tier (normalize_text text) i0 of
                Some r \<Rightarrow> r
              | None \<Rightarrow> Inr i0))"
  unfolding parse_intent_def Let_def toggle_tier_def scan_aliases_none [OF assms(2)]
  by (simp split: option.split)

theorem parse_intent_toggle_fallthrough_witness:
  "any_in [''turn on'', ''enable'', ''switch on''] (normalize_text ''Enable  increase volume'') \<and>
   list_all (\<lambda>(key, aliases).
       list_all (\<lambda>a. \<not> sublist a (normalize_text ''Enable  increase volume'')) aliases)
     SETTINGS \<and>
   parse_intent ''Enable  increase volume'' =
     Inr \<lparr>itype = adjust_setting, itarget = Some ''volume'', iaction = Some ''increase'',
          ivalue = JNull, raw_text = Some ''Enable  increase volume''\<rparr>"
proof -
  have n: "normalize_text ''Enable  increase volume'' = ''enable increase volume''"
    by code_simp
  have a: "any_in [''turn on'', ''enable'', ''switch on''] (normalize_text ''Enable  increase volume'')"
    unfolding n by code_simp
  have l: "list_all (\<lambda>(key, aliases).
       list_all (\<lambda>a. \<not> sublist a (normalize_text ''Enable  increase volume'')) aliases)
     SETTINGS"
    unfolding n by code_simp
  then have b: "\<forall>(key, aliases) \<in> set SETTINGS. \<forall>a \<in> set aliases.
       \<not> sublist a (normalize_text ''Enable  increase volume'')"
    by (auto simp: list_all_iff)
  have o: "open_tier ''enable increase volume''
             \<lparr>itype = unknown, itarget = None, iaction = None, ivalue = JNull,
              raw_text = Some ''Enable  increase volume''\<rparr> = None"
    by code_simp
  have t: "adjust_tier ''enable increase volume''
             \<lparr>itype = unknown, itarget = None, iaction = None, ivalue = JNull,
              raw_text = Some ''Enable  increase volume''\<rparr> =
           Some (Inr \<lparr>itype = adjust_setting, itarget = Some ''volume'',
                      iaction = Some ''increase'', ivalue = JNull,
                      raw_text = Some ''Enable  increase volume''\<rparr>)"
    by code_simp
  from parse_intent_toggle_fallthrough [OF disjI1 [OF a] b]
  have "parse_intent ''Enable  increase volume'' =
     Inr \<lparr>itype = adjust_setting, itarget = Some ''volume'', iaction = Some ''increase'',
          ivalue = JNull, raw_text = Some ''Enable  increase volume''\<rparr>"
    unfolding n Let_def o t by simp
  with a l show ?thesis by blast
qed

section \<open>Properties of the store operations\<close>

lemma update_one_Cons_fst:
  "fst (update_one P f ((i, d) # c)) =
     (if P (i, d) then (i, f d) # c else (i, d) # fst (update_one P f c))"
  by (simp split: prod.split)

lemma update_one_Cons_snd:
  "snd (update_one P f ((i, d) # c)) = (if P (i, d) then 1 else snd (update_one P f c))"
  by (simp split: prod.split)

lemma update_one_split:
  assumes "\<forall>y \<in> set pre. \<not> P y" and "P (i, x)"
  shows "update_one P f (pre @ (i, x) # post) = (pre @ (i, f x) # post, 1)"
  using assms by (induction pre) auto

lemma update_one_matched_count:
  "snd (update_one P f c) = (if \<exists>y \<in> set c. P y then 1 else 0)"
proof (induction c)
  case Nil
  show ?case by simp
next
  case (Cons a c)
  obtain i d where a: "a = (i, d)" by (cases a)
  show ?case unfolding a update_one_Cons_snd using Cons.IH by auto
qed

lemma update_one_map:
  assumes "\<And>i x. g (i, f x) = g (i, x)"
  shows "map g (fst (update_one P f c)) = map g c"
proof (induction c)
  case Nil
  show ?case by simp
next
  case (Cons a c)
  obtain i d where a: "a = (i, d)" by (cases a)
  show ?case unfolding a update_one_Cons_fst using Cons.IH by (simp add: assms)
qed

lemma update_one_twice:
  assumes "\<And>i x. P (i, f x) = P (i, x)"
  shows "fst (update_one P h (fst (update_one P f c))) = fst (update_one P (\<lambda>x. h (f x)) c)"
proof (induction c)
  case Nil
  show ?case by simp
next
  case (Cons a c)
  obtain i d where a: "a = (i, d)" by (cases a)
  show ?case using Cons.IH
    by (simp add: a assms update_one_Cons_fst del: update_one.simps)
qed

lemma update_one_exists:
  assumes "\<And>i x. P (i, f x) = P (i, x)"
  shows "(\<exists>y \<in> set (fst (update_one P f c)). P y) = (\<exists>y \<in> set c. P y)"
proof (induction c)
  case Nil
  show ?case by simp
next
  case (Cons a c)
  obtain i d where a: "a = (i, d)" by (cases a)
  show ?case unfolding a update_one_Cons_fst using Cons.IH
    by (simp add: assms)
qed

lemma update_one_find:
  assumes "\<And>i x. P (i, f x) = P (i, x)"
  shows "find P (fst (update_one P f c)) = map_option (\<lambda>(i, x). (i, f x)) (find P c)"
proof (induction c)
  case Nil
  show ?case by simp
next
  case (Cons a c)
  obtain i d where a: "a = (i, d)" by (cases a)
  show ?case unfolding a update_one_Cons_fst using Cons.IH
    by (simp add: assms)
qed






lemma complete_action_Some:
  "complete_action (Some d) aid payload now =
     (if \<exists>y \<in> set (deviceaction d). da_id (snd y) = aid then
        Inr (d\<lparr>deviceaction :=
          fst (update_one (\<lambda>(i, x). da_id x = aid)
                 (\<lambda>x. x\<lparr>status := status_of (req_status payload),
                        result := req_result payload, updated_at := Some now\<rparr>)
                 (deviceaction d))\<rparr>)
      else Inl (HTTPException 404 ''Action not found''))"
proof -
  have "snd (update_one (\<lambda>(i, x). da_id x = aid)
                 (\<lambda>x. x\<lparr>status := status_of (req_status payload),
                        result := req_result payload, updated_at := Some now\<rparr>)
                 (deviceaction d)) =
        (if \<exists>y \<in> set (deviceaction d). da_id (snd y) = aid then 1 else 0)"
    unfolding update_one_matched_count by (simp add: case_prod_beta)
  then show ?thesis
    unfolding complete_action_def by (simp add: case_prod_beta)
qed

text \<open>
  C7: on a configured store, complete_action answers 404 exactly when no stored device
  action has the given id; and when one has, the call succeeds and the first record
  with that id carries the given status and result (and the update timestamp), the
  rest of the collection being as before.
\<close>

theorem complete_action_not_found_iff:
  "(complete_action (Some d) aid payload now = Inl (HTTPException 404 ''Action not found'')
      \<longleftrightarrow> aid \<notin> set (map (da_id \<circ> snd) (deviceaction d))) \<and>
   (\<forall>pre i x post.
       deviceaction d = pre @ (i, x) # post \<and> aid \<notin> set (map (da_id \<circ> snd) pre) \<and>
       da_id x = aid \<longrightarrow>
       complete_action (Some d) aid payload now =
         Inr (d\<lparr>deviceaction :=
                pre @ (i, x\<lparr>status := status_of (req_status payload),
                             result := req_result payload, updated_at := Some now\<rparr>) # post\<rparr>))"
proof (intro conjI allI impI)
  show "complete_action (Some d) aid payload now = Inl (HTTPException 404 ''Action not found'')
      \<longleftrightarrow> aid \<notin> set (map (da_id \<circ> snd) (deviceaction d))"
    unfolding complete_action_Some by (auto simp: image_iff)
next
  fix pre i x post
  assume h: "deviceaction d = pre @ (i, x) # post \<and> aid \<notin> set (map (da_id \<circ> snd) pre) \<and>
       da_id x = aid"
  then have "\<forall>y \<in> set pre. \<not> (\<lambda>(i, x). da_id x = aid) y"
    by (auto simp: image_iff)
  moreover from h have "(\<lambda>(i, x). da_id x = aid) (i, x)" by simp
  ultimately have "update_one (\<lambda>(i, x). da_id x = aid)
                  (\<lambda>x. x\<lparr>status := status_of (req_status payload),
                         result := req_result payload, updated_at := Some now\<rparr>)
                  (pre @ (i, x) # post) =
        (pre @ (i, x\<lparr>status := status_of (req_status payload),
                             result := req_result payload, updated_at := Some now\<rparr>) # post, 1)"
    by (rule update_one_split)
  with h show "complete_action (Some d) aid payload now =
         Inr (d\<lparr>deviceaction :=
                pre @ (i, x\<lparr>status := status_of (req_status payload),
                             result := req_result payload, updated_at := Some now\<rparr>) # post\<rparr>)"
    unfolding complete_action_def by simp
qed

theorem complete_action_not_found_iff_witness:
  "complete_action
     (Some \<lparr>interaction = [],
            deviceaction =
              [(1, \<lparr>da_id = ''a1'', kind = kind_toggle, target = ''wifi'', action = Some ''on'',
                    da_value = JNull, status = reserved, device_id = Some ''d1'', result = None,
                    updated_at = Some 3\<rparr>)]\<rparr>)
     ''a1'' \<lparr>req_result = Some [(''ok'', JBool True)], req_status = req_completed\<rparr> 7 =
   Inr \<lparr>interaction = [],
        deviceaction =
          [(1, \<lparr>da_id = ''a1'', kind = kind_toggle, target = ''wifi'', action = Some ''on'',
                da_value = JNull, status = completed, device_id = Some ''d1'',
                result = Some [(''ok'', JBool True)], updated_at = Some 7\<rparr>)]\<rparr> \<and>
   complete_action
     (Some \<lparr>interaction = [],
            deviceaction =
              [(1, \<lparr>da_id = ''a1'', kind = kind_toggle, target = ''wifi'', action = Some ''on'',
                    da_value = JNull, status = reserved, device_id = Some ''d1'', result = None,
                    updated_at = Some 3\<rparr>)]\<rparr>)
     ''zz'' \<lparr>req_result = None, req_status = req_completed\<rparr> 7 =
   Inl (HTTPException 404 ''Action not found'')"
proof -
  let ?x = "\<lparr>da_id = ''a1'', kind = kind_toggle, target = ''wifi'', action = Some ''on'',
                    da_value = JNull, status = reserved, device_id = Some ''d1'', result = None,
                    updated_at = Some 3\<rparr>"
  let ?d = "\<lparr>interaction = [], deviceaction = [(1, ?x)]\<rparr>"
  let ?p = "\<lparr>req_result = Some [(''ok'', JBool True)], req_status = req_completed\<rparr>"
  let ?q = "\<lparr>req_result = None, req_status = req_completed\<rparr>"
  have a: "complete_action (Some ?d) ''a1'' ?p 7 =
         Inr (?d\<lparr>deviceaction :=
                [] @ (1, ?x\<lparr>status := status_of (req_status ?p),
                             result := req_result ?p, updated_at := Some 7\<rparr>) # []\<rparr>)"
    using complete_action_not_found_iff [of ?d "''a1''" ?p 7, THEN conjunct2, rule_format, of "[]" 1 ?x "[]"]
    by simp
  have b: "complete_action (Some ?d) ''zz'' ?q 7 = Inl (HTTPException 404 ''Action not found'')"
    using complete_action_not_found_iff [of ?d "''zz''" ?q 7, THEN conjunct1]
    by simp
  from a b show ?thesis by simp
qed

lemma update_one_map_cong:
  assumes "\<And>i x. g (i, f x) = g (i, f' x)"
  shows "map g (fst (update_one P f c)) = map g (fst (update_one P f' c))"
proof (induction c)
  case Nil
  show ?case by simp
next
  case (Cons a c)
  obtain i d where a: "a = (i, d)" by (cases a)
  show ?case using Cons.IH
    by (simp add: a assms update_one_Cons_fst del: update_one.simps)
qed

lemma get_next_action_Some:
  "get_next_action (Some d) dev now =
     (case find (\<lambda>(i, x). status x = pending) (deviceaction d) of
        None \<Rightarrow> (None, Some d)
      | Some p \<Rightarrow>
          (Some (claim_response p dev),
           Some (d\<lparr>deviceaction :=
             fst (update_one (\<lambda>(i, x). i = fst p)
               (\<lambda>x. x\<lparr>status := reserved, device_id := dev, updated_at := Some now\<rparr>)
               (deviceaction d))\<rparr>)))"
  by (simp add: get_next_action_def claim_find_def claim_update_def find_one_def
        split: option.split)

text \<open>
  C8: get_next_action and complete_action keep the collection's documents in place and
  leave \<open>_id\<close>, id, kind, target, action and value of every one of them as they were;
  get_next_action leaves result untouched as well, and complete_action device_id.
\<close>

theorem queue_ops_frame:
  "(\<forall>r d'. get_next_action (Some d) dev now = (r, Some d') \<longrightarrow>
      map (\<lambda>(i, x). (i, da_id x, kind x, target x, action x, da_value x, result x))
          (deviceaction d') =
      map (\<lambda>(i, x). (i, da_id x, kind x, target x, action x, da_value x, result x))
          (deviceaction d)) \<and>
   (\<forall>d'. complete_action (Some d) aid payload now = Inr d' \<longrightarrow>
      map (\<lambda>(i, x). (i, da_id x, kind x, target x, action x, da_value x, device_id x))
          (deviceaction d') =
      map (\<lambda>(i, x). (i, da_id x, kind x, target x, action x, da_value x, device_id x))
          (deviceaction d))"
proof (intro conjI allI impI)
  fix r d'
  assume "get_next_action (Some d) dev now = (r, Some d')"
  then show "map (\<lambda>(i, x). (i, da_id x, kind x, target x, action x, da_value x, result x))
          (deviceaction d') =
      map (\<lambda>(i, x). (i, da_id x, kind x, target x, action x, da_value x, result x))
          (deviceaction d)"
    unfolding get_next_action_Some
    by (auto split: option.splits simp: update_one_map)
next
  fix d'
  assume "complete_action (Some d) aid payload now = Inr d'"
  then show "map (\<lambda>(i, x). (i, da_id x, kind x, target x, action x, da_value x, device_id x))
          (deviceaction d') =
      map (\<lambda>(i, x). (i, da_id x, kind x, target x, action x, da_value x, device_id x))
          (deviceaction d)"
    unfolding complete_action_Some
    by (auto split: if_splits simp: update_one_map)
qed

text \<open>
  C3, amended: when some stored record has the given id, complete_action succeeds
  whatever the status of that record (pending, reserved or already terminal) and the
  first record with the id then carries the given status, result and timestamp; a
  second call with the same arguments succeeds too and changes nothing but the update
  timestamp.
\<close>

theorem complete_action_overwrites:
  assumes "\<exists>y \<in> set (deviceaction d). da_id (snd y) = aid"
  shows "\<exists>d1 i x.
      complete_action (Some d) aid p t1 = Inr d1 \<and>
      find (\<lambda>(i, x). da_id x = aid) (deviceaction d1) = Some (i, x) \<and>
      status x = status_of (req_status p) \<and> result x = req_result p \<and>
      updated_at x = Some t1 \<and>
      (\<exists>d2. complete_action (Some d1) aid p t2 = Inr d2 \<and>
         map (\<lambda>(i, x). (i, x\<lparr>updated_at := None\<rparr>)) (deviceaction d2) =
         map (\<lambda>(i, x). (i, x\<lparr>updated_at := None\<rparr>)) (deviceaction d1))"
proof -
  let ?P = "\<lambda>(i, x). da_id x = aid"
  let ?f = "\<lambda>t x. x\<lparr>status := status_of (req_status p), result := req_result p,
                      updated_at := Some t\<rparr>"
  let ?c1 = "fst (update_one ?P (?f t1) (deviceaction d))"
  let ?d1 = "d\<lparr>deviceaction := ?c1\<rparr>"
  have inv: "\<And>t i x. ?P (i, ?f t x) = ?P (i, x)" by simp
  have c1: "complete_action (Some d) aid p t1 = Inr ?d1"
    unfolding complete_action_Some using assms by simp
  from assms obtain y0 where "y0 \<in> set (deviceaction d)" and "?P y0"
    by (auto simp: case_prod_beta)
  then have "find ?P (deviceaction d) \<noteq> None"
    unfolding find_None_iff by blast
  then obtain j y where jy: "find ?P (deviceaction d) = Some (j, y)"
    by (cases "find ?P (deviceaction d)") auto
  have f1: "find ?P ?c1 = Some (j, ?f t1 y)"
    using update_one_find [of ?P "?f t1" "deviceaction d"] jy by simp
  have ex1: "\<exists>y \<in> set (deviceaction ?d1). da_id (snd y) = aid"
    using update_one_exists [of ?P "?f t1" "deviceaction d"] assms
    by (simp add: case_prod_beta)
  let ?d2 = "?d1\<lparr>deviceaction := fst (update_one ?P (?f t2) ?c1)\<rparr>"
  have c2: "complete_action (Some ?d1) aid p t2 = Inr ?d2"
    unfolding complete_action_Some using ex1 by simp
  have tw: "fst (update_one ?P (?f t2) ?c1) =
             fst (update_one ?P (\<lambda>x. ?f t2 (?f t1 x)) (deviceaction d))"
    by (rule update_one_twice) simp
  have "map (\<lambda>(i, x). (i, x\<lparr>updated_at := None\<rparr>))
          (fst (update_one ?P (\<lambda>x. ?f t2 (?f t1 x)) (deviceaction d))) =
        map (\<lambda>(i, x). (i, x\<lparr>updated_at := None\<rparr>)) ?c1"
    by (rule update_one_map_cong) simp
  with tw have m: "map (\<lambda>(i, x). (i, x\<lparr>updated_at := None\<rparr>)) (deviceaction ?d2) =
         map (\<lambda>(i, x). (i, x\<lparr>updated_at := None\<rparr>)) (deviceaction ?d1)"
    by simp
  from c1 f1 c2 m show ?thesis by simp
qed


theorem queue_ops_frame_witness:
  "get_next_action
     (Some \<lparr>interaction = [],
            deviceaction =
              [(4, \<lparr>da_id = ''a1'', kind = kind_adjust, target = ''volume'',
                    action = Some ''set'', da_value = JInt 40, status = pending,
                    device_id = None, result = None, updated_at = None\<rparr>)]\<rparr>)
     (Some ''phone'') 5 =
   (Some \<lparr>da_id = ''a1'', kind = kind_adjust, target = ''volume'', action = Some ''set'',
          da_value = JInt 40, status = reserved, device_id = Some ''phone'', result = None\<rparr>,
    Some \<lparr>interaction = [],
          deviceaction =
            [(4, \<lparr>da_id = ''a1'', kind = kind_adjust, target = ''volume'',
                  action = Some ''set'', da_value = JInt 40, status = reserved,
                  device_id = Some ''phone'', result = None, updated_at = Some 5\<rparr>)]\<rparr>) \<and>
   map (\<lambda>(i, x). (i, da_id x, kind x, target x, action x, da_value x, result x))
     [(4, \<lparr>da_id = ''a1'', kind = kind_adjust, target = ''volume'',
           action = Some ''set'', da_value = JInt 40, status = reserved,
           device_id = Some ''phone'', result = None, updated_at = Some 5\<rparr>)] =
   [(4, ''a1'', kind_adjust, ''volume'', Some ''set'', JInt 40, None)]"
proof -
  let ?x = "\<lparr>da_id = ''a1'', kind = kind_adjust, target = ''volume'',
                    action = Some ''set'', da_value = JInt 40, status = pending,
                    device_id = None, result = None, updated_at = None\<rparr>"
  let ?x' = "\<lparr>da_id = ''a1'', kind = kind_adjust, target = ''volume'',
                  action = Some ''set'', da_value = JInt 40, status = reserved,
                  device_id = Some ''phone'', result = None, updated_at = Some 5\<rparr>"
  let ?r = "\<lparr>da_id = ''a1'', kind = kind_adjust, target = ''volume'', action = Some ''set'',
          da_value = JInt 40, status = reserved, device_id = Some ''phone'', result = None\<rparr>"
  let ?d = "\<lparr>interaction = [], deviceaction = [(4, ?x)]\<rparr>"
  let ?d' = "\<lparr>interaction = [], deviceaction = [(4, ?x')]\<rparr>"
  have g: "get_next_action (Some ?d) (Some ''phone'') 5 = (Some ?r, Some ?d')"
    by (simp add: get_next_action_Some claim_response_def)
  from queue_ops_frame [of ?d "Some ''phone''" 5, THEN conjunct1, rule_format, OF g]
  have "map (\<lambda>(i, x). (i, da_id x, kind x, target x, action x, da_value x, result x))
          (deviceaction ?d') =
        map (\<lambda>(i, x). (i, da_id x, kind x, target x, action x, da_value x, result x))
          (deviceaction ?d)" .
  with g show ?thesis by simp
qed

theorem complete_action_overwrites_witness:
  "\<exists>d1 i x.
      complete_action
        (Some \<lparr>interaction = [],
               deviceaction =
                 [(4, \<lparr>da_id = ''a1'', kind = kind_adjust, target = ''volume'',
                       action = Some ''set'', da_value = JInt 40, status = pending,
                       device_id = None, result = None, updated_at = None\<rparr>)]\<rparr>)
        ''a1'' \<lparr>req_result = None, req_status = req_failed\<rparr> 8 = Inr d1 \<and>
      find (\<lambda>(i, x). da_id x = ''a1'') (deviceaction d1) = Some (i, x) \<and>
      status x = failed \<and> result x = None \<and> updated_at x = Some 8 \<and>
      (\<exists>d2. complete_action (Some d1) ''a1'' \<lparr>req_result = None, req_status = req_failed\<rparr> 9
              = Inr d2 \<and>
         map (\<lambda>(i, x). (i, x\<lparr>updated_at := None\<rparr>)) (deviceaction d2) =
         map (\<lambda>(i, x). (i, x\<lparr>updated_at := None\<rparr>)) (deviceaction d1))"
proof -
  let ?x = "\<lparr>da_id = ''a1'', kind = kind_adjust, target = ''volume'',
                    action = Some ''set'', da_value = JInt 40, status = pending,
                    device_id = None, result = None, updated_at = None\<rparr>"
  let ?d = "\<lparr>interaction = [], deviceaction = [(4, ?x)]\<rparr>"
  have e: "\<exists>y \<in> set (deviceaction ?d). da_id (snd y) = ''a1''" by simp
  from complete_action_overwrites [OF e, of "\<lparr>req_result = None, req_status = req_failed\<rparr>" 8 9]
  show ?thesis by simp
qed

text \<open>
  C3 as stated fails: a record already completed, with a result, is completed again as
  failed; the call succeeds and the stored status and result are overwritten.
\<close>

theorem complete_action_conflict_counterexample:
  "complete_action
     (Some \<lparr>interaction = [],
            deviceaction =
              [(4, \<lparr>da_id = ''a1'', kind = kind_adjust, target = ''volume'',
                    action = Some ''set'', da_value = JInt 40, status = completed,
                    device_id = Some ''phone'', result = Some [(''ok'', JBool True)],
                    updated_at = Some 6\<rparr>)]\<rparr>)
     ''a1'' \<lparr>req_result = None, req_status = req_failed\<rparr> 9 =
   Inr \<lparr>interaction = [],
        deviceaction =
          [(4, \<lparr>da_id = ''a1'', kind = kind_adjust, target = ''volume'',
                action = Some ''set'', da_value = JInt 40, status = failed,
                device_id = Some ''phone'', result = None, updated_at = Some 9\<rparr>)]\<rparr>"
  by (simp add: complete_action_def)





text \<open>
  Inserting keeps the \<open>_id\<close>s of a collection distinct, and the queue operations do
  not touch them: distinctness holds in every store the program builds.
\<close>

lemma fold_max_ge: "n \<le> fold max ns (n :: nat)"
proof (induction ns arbitrary: n)
  case Nil
  show ?case by simp
next
  case (Cons a ns)
  have "n \<le> max a n" by simp
  also have "max a n \<le> fold max ns (max a n)" by (rule Cons.IH)
  finally show ?case by simp
qed

lemma fold_max_mem: "m \<in> set ns \<Longrightarrow> m \<le> fold max ns (n :: nat)"
proof (induction ns arbitrary: n)
  case Nil
  then show ?case by simp
next
  case (Cons a ns)
  show ?case
  proof (cases "m = a")
    case True
    have "a \<le> max a n" by simp
    also have "max a n \<le> fold max ns (max a n)" by (rule fold_max_ge)
    finally show ?thesis using True by simp
  next
    case False
    with Cons.prems have "m \<in> set ns" by simp
    then have "m \<le> fold max ns (max a n)" by (rule Cons.IH)
    then show ?thesis by simp
  qed
qed

lemma fresh_oid_fresh: "fresh_oid c \<notin> set (map fst c)"
proof
  assume "fresh_oid c \<in> set (map fst c)"
  then have "fresh_oid c \<le> fold max (map fst c) 0" by (rule fold_max_mem)
  then show False by (simp add: fresh_oid_def)
qed

lemma insert_keeps_distinct:
  "distinct (map fst c) \<Longrightarrow> distinct (map fst (c @ [(fresh_oid c, x)]))"
  using fresh_oid_fresh [of c] by simp

section \<open>Properties of create_interaction\<close>

lemma create_interaction_Some:
  "create_interaction (Some d) item uuid =
     Inr (oid_str (fresh_oid (interaction d)),
       d\<lparr>interaction := interaction d @ [(fresh_oid (interaction d), item)],
         deviceaction := deviceaction d @
           (case intent item of
              None \<Rightarrow> []
            | Some i \<Rightarrow>
                if itype i = unknown then []
                else [(fresh_oid (deviceaction d),
                       \<lparr>da_id = uuid,
                        kind = (case itype i of
                                  open_app \<Rightarrow> kind_open_app
                                | toggle_setting \<Rightarrow> kind_toggle
                                | adjust_setting \<Rightarrow> kind_adjust
                                | unknown \<Rightarrow> kind_adjust),
                        target = (case itarget i of None \<Rightarrow> '''' | Some s \<Rightarrow> s),
                        action = (if itype i = open_app then Some ''open'' else iaction i),
                        da_value = (if itype i = adjust_setting then ivalue i else JNull),
                        status = pending, device_id = None, result = None,
                        updated_at = None\<rparr>)])\<rparr>)"
proof (cases "intent item")
  case None
  then show ?thesis
    by (simp add: create_interaction_def create_document_interaction_def Let_def)
next
  case (Some i)
  have t: "or_empty (itarget i) = (case itarget i of None \<Rightarrow> '''' | Some s \<Rightarrow> s)"
    by (simp add: or_empty_def split: option.split)
  show ?thesis
    by (cases "itype i")
      (simp_all add: Some t create_interaction_def create_document_interaction_def
        create_document_deviceaction_def Let_def DeviceAction_init_def model_dump_def)
qed

text \<open>
  C10: for an intent of an actionable type whose target is null, create_interaction on
  a configured store succeeds and the record it appends has the empty string as target.
\<close>

theorem create_interaction_null_target:
  assumes "intent item = Some i" and "itype i \<noteq> unknown" and "itarget i = None"
  shows "\<exists>r d1 n x. create_interaction (Some d) item uuid = Inr (r, d1) \<and>
           deviceaction d1 = deviceaction d @ [(n, x)] \<and> target x = ''''"
  unfolding create_interaction_Some using assms by simp


theorem create_interaction_null_target_witness:
  "\<exists>r d1 n x.
     create_interaction (Some \<lparr>interaction = [], deviceaction = []\<rparr>)
       \<lparr>role = user, itext = ''open'',
        intent = Some \<lparr>itype = open_app, itarget = None, iaction = Some ''open'',
                       ivalue = JNull, raw_text = Some ''open''\<rparr>\<rparr>
       ''u1'' = Inr (r, d1) \<and>
     deviceaction d1 = deviceaction \<lparr>interaction = [], deviceaction = []\<rparr> @ [(n, x)] \<and>
     target x = ''''"
  using create_interaction_null_target
    [of "\<lparr>role = user, itext = ''open'',
        intent = Some \<lparr>itype = open_app, itarget = None, iaction = Some ''open'',
                       ivalue = JNull, raw_text = Some ''open''\<rparr>\<rparr>"
        "\<lparr>itype = open_app, itarget = None, iaction = Some ''open'',
                       ivalue = JNull, raw_text = Some ''open''\<rparr>"
        "\<lparr>interaction = [], deviceaction = []\<rparr>" "''u1''"]
  by simp

section \<open>Properties of runs\<close>

text \<open>
  Along every run the collection of device actions lists the records in the order of
  the requests that created them, each under the identifier minted for it, and the
  \<open>_id\<close>s stay distinct: an insert appends under an unused \<open>_id\<close>, and the two queue
  operations change neither the place nor the identifiers of a document.
\<close>

lemma created_append: "created (xs @ ys) = created xs @ created ys"
  by (induction xs rule: created.induct) simp_all

lemma actionable_iff:
  "actionable item = (case intent item of None \<Rightarrow> False | Some i \<Rightarrow> itype i \<noteq> unknown)"
proof (cases "intent item")
  case None
  then show ?thesis by (simp add: actionable_def)
next
  case (Some i)
  then show ?thesis by (cases "itype i") (simp_all add: actionable_def)
qed

lemma apply_request_post:
  "\<exists>news. deviceaction (apply_request d (PostInteraction item uuid)) = deviceaction d @ news \<and>
     map fst news = (if actionable item then [fresh_oid (deviceaction d)] else []) \<and>
     map (da_id \<circ> snd) news = (if actionable item then [uuid] else []) \<and>
     list_all (\<lambda>(i, x). status x = pending) news"
proof (cases "intent item")
  case None
  then show ?thesis by (simp add: create_interaction_Some actionable_iff)
next
  case (Some i)
  then show ?thesis
    by (cases "itype i = unknown") (simp_all add: create_interaction_Some actionable_iff)
qed

lemma apply_request_claim_map:
  assumes "\<And>i x. g (i, x\<lparr>status := reserved, device_id := dev, updated_at := Some now\<rparr>) = g (i, x)"
  shows "map g (deviceaction (apply_request d (GetNextAction dev now))) = map g (deviceaction d)"
  by (simp add: get_next_action_Some update_one_map assms split: option.split)

lemma apply_request_complete_map:
  assumes "\<And>i x. g (i, x\<lparr>status := status_of (req_status payload),
                       result := req_result payload, updated_at := Some now\<rparr>) = g (i, x)"
  shows "map g (deviceaction (apply_request d (CompleteAction aid payload now))) =
           map g (deviceaction d)"
  by (simp add: complete_action_Some update_one_map assms)

lemma apply_request_ids:
  "map (da_id \<circ> snd) (deviceaction (apply_request d r)) =
     map (da_id \<circ> snd) (deviceaction d) @ created [r]"
proof (cases r)
  case (PostInteraction item uuid)
  from apply_request_post [of d item uuid] show ?thesis
    unfolding PostInteraction by auto
next
  case (GetNextAction dev now)
  show ?thesis
    unfolding GetNextAction by (simp add: apply_request_claim_map del: apply_request.simps)
next
  case (CompleteAction aid payload now)
  show ?thesis
    unfolding CompleteAction by (simp add: apply_request_complete_map del: apply_request.simps)
qed


lemma foldl_apply_request_ids:
  "map (da_id \<circ> snd) (deviceaction (foldl apply_request d reqs)) =
     map (da_id \<circ> snd) (deviceaction d) @ created reqs"
proof (induction reqs arbitrary: d)
  case Nil
  show ?case by simp
next
  case (Cons r reqs)
  have c: "created [r] @ created reqs = created (r # reqs)"
    using created_append [of "[r]" reqs] by simp
  have "map (da_id \<circ> snd) (deviceaction (foldl apply_request d (r # reqs))) =
        map (da_id \<circ> snd) (deviceaction (foldl apply_request (apply_request d r) reqs))"
    by (simp only: foldl_Cons)
  also have "\<dots> = map (da_id \<circ> snd) (deviceaction (apply_request d r)) @ created reqs"
    by (rule Cons.IH)
  also have "\<dots> = (map (da_id \<circ> snd) (deviceaction d) @ created [r]) @ created reqs"
    by (simp only: apply_request_ids)
  also have "\<dots> = map (da_id \<circ> snd) (deviceaction d) @ created (r # reqs)"
    by (simp only: append_assoc c)
  finally show ?case .
qed


lemma history_ids: "map (da_id \<circ> snd) (deviceaction (history reqs)) = created reqs"
  by (simp add: history_def foldl_apply_request_ids)


lemma history_snoc:
  "history (reqs @ [r]) = apply_request (history reqs) r"
  by (simp add: history_def)


text \<open>
  C6, amended: on a configured store create_interaction adds no device action exactly
  when the intent is absent or of type unknown; for every other type it appends one
  record, pending, whose id is the identifier minted for it by uuid4, with no device
  and no result. The target is the intent's target, or the empty string when that is
  null. The action is the constant \<open>open\<close> for open_app and the intent's action for the
  other two types; the value is the intent's value for adjust_setting and null for the
  other two types. The id is unique: the ids of the stored records are the identifiers
  minted along the run, one record each, so that they are pairwise distinct whenever
  the identifiers that uuid4 returned are.
\<close>

theorem create_interaction_enqueue:
  "(\<exists>d1. create_interaction (Some d) item uuid = Inr (oid_str (fresh_oid (interaction d)), d1) \<and>
     ((deviceaction d1 = deviceaction d) =
         (case intent item of None \<Rightarrow> True | Some i \<Rightarrow> itype i = unknown)) \<and>
     (\<forall>i. intent item = Some i \<and> itype i \<noteq> unknown \<longrightarrow>
        (\<exists>x. deviceaction d1 = deviceaction d @ [(fresh_oid (deviceaction d), x)] \<and>
           status x = pending \<and> da_id x = uuid \<and> device_id x = None \<and> result x = None \<and>
           kind x = (case itype i of open_app \<Rightarrow> kind_open_app
                       | toggle_setting \<Rightarrow> kind_toggle | _ \<Rightarrow> kind_adjust) \<and>
           target x = (case itarget i of None \<Rightarrow> '''' | Some s \<Rightarrow> s) \<and>
           action x = (if itype i = open_app then Some ''open'' else iaction i) \<and>
           da_value x = (if itype i = adjust_setting then ivalue i else JNull)))) \<and>
   (distinct (created (reqs @ [PostInteraction item uuid])) \<longrightarrow>
      (\<exists>r d1. create_interaction (Some (history reqs)) item uuid = Inr (r, d1) \<and>
         map (da_id \<circ> snd) (deviceaction d1) = created (reqs @ [PostInteraction item uuid]) \<and>
         distinct (map (da_id \<circ> snd) (deviceaction d1))))"
proof (intro conjI impI)
  show "\<exists>d1. create_interaction (Some d) item uuid = Inr (oid_str (fresh_oid (interaction d)), d1) \<and>
     ((deviceaction d1 = deviceaction d) =
         (case intent item of None \<Rightarrow> True | Some i \<Rightarrow> itype i = unknown)) \<and>
     (\<forall>i. intent item = Some i \<and> itype i \<noteq> unknown \<longrightarrow>
        (\<exists>x. deviceaction d1 = deviceaction d @ [(fresh_oid (deviceaction d), x)] \<and>
           status x = pending \<and> da_id x = uuid \<and> device_id x = None \<and> result x = None \<and>
           kind x = (case itype i of open_app \<Rightarrow> kind_open_app
                       | toggle_setting \<Rightarrow> kind_toggle | _ \<Rightarrow> kind_adjust) \<and>
           target x = (case itarget i of None \<Rightarrow> '''' | Some s \<Rightarrow> s) \<and>
           action x = (if itype i = open_app then Some ''open'' else iaction i) \<and>
           da_value x = (if itype i = adjust_setting then ivalue i else JNull)))"
    unfolding create_interaction_Some
    by (cases "intent item") (auto split: intent_type.splits)
next
  assume u: "distinct (created (reqs @ [PostInteraction item uuid]))"
  obtain r d1 where c: "create_interaction (Some (history reqs)) item uuid = Inr (r, d1)"
    unfolding create_interaction_Some by blast
  then have "d1 = history (reqs @ [PostInteraction item uuid])"
    by (simp add: history_snoc)
  then have "map (da_id \<circ> snd) (deviceaction d1) = created (reqs @ [PostInteraction item uuid])"
    by (simp only: history_ids)
  with u c show "\<exists>r d1. create_interaction (Some (history reqs)) item uuid = Inr (r, d1) \<and>
         map (da_id \<circ> snd) (deviceaction d1) = created (reqs @ [PostInteraction item uuid]) \<and>
         distinct (map (da_id \<circ> snd) (deviceaction d1))"
    by auto
qed


theorem create_interaction_enqueue_witness:
  "(\<exists>d1 x.
     create_interaction (Some \<lparr>interaction = [], deviceaction = []\<rparr>)
       \<lparr>role = user, itext = ''set volume to 40%'',
        intent = Some \<lparr>itype = adjust_setting, itarget = Some ''volume'',
                       iaction = Some ''set'', ivalue = JInt 40,
                       raw_text = Some ''set volume to 40%''\<rparr>\<rparr>
       ''u2'' = Inr (''1'', d1) \<and>
     deviceaction d1 = [(1, x)] \<and> status x = pending \<and> da_id x = ''u2'' \<and>
     kind x = kind_adjust \<and> target x = ''volume'' \<and> action x = Some ''set'' \<and>
     da_value x = JInt 40) \<and>
   distinct (created
     [PostInteraction
        \<lparr>role = user, itext = ''turn on wifi'',
         intent = Some \<lparr>itype = toggle_setting, itarget = Some ''wifi'',
                        iaction = Some ''on'', ivalue = JNull, raw_text = None\<rparr>\<rparr> ''u1'',
      PostInteraction
        \<lparr>role = user, itext = ''set volume to 40%'',
         intent = Some \<lparr>itype = adjust_setting, itarget = Some ''volume'',
                        iaction = Some ''set'', ivalue = JInt 40,
                        raw_text = Some ''set volume to 40%''\<rparr>\<rparr> ''u2'']) \<and>
   (\<exists>r d1.
     create_interaction
       (Some (history
         [PostInteraction
            \<lparr>role = user, itext = ''turn on wifi'',
             intent = Some \<lparr>itype = toggle_setting, itarget = Some ''wifi'',
                            iaction = Some ''on'', ivalue = JNull, raw_text = None\<rparr>\<rparr> ''u1'']))
       \<lparr>role = user, itext = ''set volume to 40%'',
        intent = Some \<lparr>itype = adjust_setting, itarget = Some ''volume'',
                       iaction = Some ''set'', ivalue = JInt 40,
                       raw_text = Some ''set volume to 40%''\<rparr>\<rparr>
       ''u2'' = Inr (r, d1) \<and>
     map (da_id \<circ> snd) (deviceaction d1) = [''u1'', ''u2''] \<and>
     distinct (map (da_id \<circ> snd) (deviceaction d1)))"
proof -
  let ?i = "\<lparr>itype = adjust_setting, itarget = Some ''volume'',
                       iaction = Some ''set'', ivalue = JInt 40,
                       raw_text = Some ''set volume to 40%''\<rparr>"
  let ?item = "\<lparr>role = user, itext = ''set volume to 40%'', intent = Some ?i\<rparr>"
  let ?w = "\<lparr>role = user, itext = ''turn on wifi'',
             intent = Some \<lparr>itype = toggle_setting, itarget = Some ''wifi'',
                            iaction = Some ''on'', ivalue = JNull, raw_text = None\<rparr>\<rparr>"
  let ?d = "\<lparr>interaction = [], deviceaction = []\<rparr>"
  let ?reqs = "[PostInteraction ?w ''u1'']"
  have o: "oid_str (fresh_oid ([] :: Interaction collection)) = ''1''"
    by code_simp
  have f: "fresh_oid ([] :: stored collection) = 1"
    by (simp add: fresh_oid_def)
  have cr: "created (?reqs @ [PostInteraction ?item ''u2'']) = [''u1'', ''u2'']"
    by (simp add: actionable_def)
  note t = create_interaction_enqueue [of ?d ?item "''u2''" ?reqs]
  from t [THEN conjunct1] o f
  have a: "\<exists>d1 x.
     create_interaction (Some ?d) ?item ''u2'' = Inr (''1'', d1) \<and>
     deviceaction d1 = [(1, x)] \<and> status x = pending \<and> da_id x = ''u2'' \<and>
     kind x = kind_adjust \<and> target x = ''volume'' \<and> action x = Some ''set'' \<and>
     da_value x = JInt 40"
    by auto
  have dist: "distinct (created (?reqs @ [PostInteraction ?item ''u2'']))"
    unfolding cr by simp
  from t [THEN conjunct2, rule_format, OF dist]
  have b: "\<exists>r d1. create_interaction (Some (history ?reqs)) ?item ''u2'' = Inr (r, d1) \<and>
     map (da_id \<circ> snd) (deviceaction d1) = [''u1'', ''u2''] \<and>
     distinct (map (da_id \<circ> snd) (deviceaction d1))"
    unfolding cr .
  from a dist b show ?thesis by simp
qed

text \<open>
  C6 as stated fails. The value of a toggle_setting intent is not copied: the record
  enqueued for it has the value null. Of an open_app intent with a null target, the
  action \<open>launch\<close> and a value, none of the three is copied: the record has the empty
  string as target, the action \<open>open\<close> and the value null.
\<close>

theorem create_interaction_copy_counterexample:
  "create_interaction (Some \<lparr>interaction = [], deviceaction = []\<rparr>)
     \<lparr>role = user, itext = ''turn on wifi'',
      intent = Some \<lparr>itype = toggle_setting, itarget = Some ''wifi'', iaction = Some ''on'',
                     ivalue = JInt 1, raw_text = Some ''turn on wifi''\<rparr>\<rparr>
     ''u1'' =
   Inr (''1'',
     \<lparr>interaction =
        [(1, \<lparr>role = user, itext = ''turn on wifi'',
              intent = Some \<lparr>itype = toggle_setting, itarget = Some ''wifi'',
                             iaction = Some ''on'', ivalue = JInt 1,
                             raw_text = Some ''turn on wifi''\<rparr>\<rparr>)],
      deviceaction =
        [(1, \<lparr>da_id = ''u1'', kind = kind_toggle, target = ''wifi'', action = Some ''on'',
              da_value = JNull, status = pending, device_id = None, result = None,
              updated_at = None\<rparr>)]\<rparr>) \<and>
   create_interaction (Some \<lparr>interaction = [], deviceaction = []\<rparr>)
     \<lparr>role = user, itext = ''launch'',
      intent = Some \<lparr>itype = open_app, itarget = None, iaction = Some ''launch'',
                     ivalue = JInt 1, raw_text = Some ''launch''\<rparr>\<rparr>
     ''u1'' =
   Inr (''1'',
     \<lparr>interaction =
        [(1, \<lparr>role = user, itext = ''launch'',
              intent = Some \<lparr>itype = open_app, itarget = None, iaction = Some ''launch'',
                             ivalue = JInt 1, raw_text = Some ''launch''\<rparr>\<rparr>)],
      deviceaction =
        [(1, \<lparr>da_id = ''u1'', kind = kind_open_app, target = '''', action = Some ''open'',
              da_value = JNull, status = pending, device_id = None, result = None,
              updated_at = None\<rparr>)]\<rparr>)"
  by code_simp

section \<open>Overlapping calls of get_next_action\<close>

text \<open>
  One caller that takes its two steps without interruption does what get_next_action
  does.
\<close>

lemma step_twice_get_next_action:
  "step (step ([Idle dev], db) (0, t0)) (0, now) =
     (case get_next_action db dev now of (r, db') \<Rightarrow> ([Returned r], db'))"
  by (simp add: get_next_action_def split: option.split)

text \<open>
  C1, with two callers and one pending record: both callers run find_one before either
  runs update_one. Each reads the record as pending, each update is keyed on \<open>_id\<close>
  alone and succeeds, and both calls return the record as reserved, one for device d1
  and one for d2.
\<close>

theorem get_next_action_race:
  "run [(0, 5), (1, 6), (0, 7), (1, 8)]
     ([Idle (Some ''d1''), Idle (Some ''d2'')],
      Some \<lparr>interaction = [],
            deviceaction =
              [(1, \<lparr>da_id = ''a1'', kind = kind_toggle, target = ''wifi'', action = Some ''on'',
                    da_value = JNull, status = pending, device_id = None, result = None,
                    updated_at = None\<rparr>)]\<rparr>) =
   ([Returned (Some \<lparr>da_id = ''a1'', kind = kind_toggle, target = ''wifi'',
                     action = Some ''on'', da_value = JNull, status = reserved,
                     device_id = Some ''d1'', result = None\<rparr>),
     Returned (Some \<lparr>da_id = ''a1'', kind = kind_toggle, target = ''wifi'',
                     action = Some ''on'', da_value = JNull, status = reserved,
                     device_id = Some ''d2'', result = None\<rparr>)],
    Some \<lparr>interaction = [],
          deviceaction =
            [(1, \<lparr>da_id = ''a1'', kind = kind_toggle, target = ''wifi'', action = Some ''on'',
                  da_value = JNull, status = reserved, device_id = Some ''d2'', result = None,
                  updated_at = Some 8\<rparr>)]\<rparr>)"
  by (simp add: run_def claim_find_def find_one_def claim_update_def claim_response_def)

end
